theory Spec2Isabelle
  imports Main
begin

section \<open>JavaScript values\<close>

text \<open>
  The cookie objects delivered by the cookie store, and everything the popup sends to the
  background page, are JSON-like values. A number is modelled as an integer (rendered in
  plain decimal, as JavaScript does for integers of magnitude below \<open>10^21\<close>); an object is
  the list of its own properties in property order, with pairwise different names.
\<close>

datatype jsval =
    JUndefined
  | JNull
  | JBool bool
  | JNum int
  | JStr string
  | JArr "jsval list"
  | JObj "(string \<times> jsval) list"

type_synonym jsobject = "(string \<times> jsval) list"

text \<open>\<open>obj.name\<close> on an object: the value of the property, \<open>undefined\<close> when it is absent.\<close>

definition obj_get :: "jsobject \<Rightarrow> string \<Rightarrow> jsval" where
  "obj_get obj name = (case map_of obj name of None \<Rightarrow> JUndefined | Some v \<Rightarrow> v)"

text \<open>
  \<open>obj[name] = v\<close> while an object literal is built: an existing property keeps its place
  and takes the new value, a new property goes to the end.
\<close>

fun obj_set :: "jsobject \<Rightarrow> string \<Rightarrow> jsval \<Rightarrow> jsobject" where
  "obj_set [] name v = [(name, v)]"
| "obj_set ((n, w) # obj) name v =
     (if n = name then (name, v) # obj else (n, w) # obj_set obj name v)"

text \<open>\<open>Array.prototype.join\<close> on an array of strings.\<close>

fun join_with :: "string \<Rightarrow> string list \<Rightarrow> string" where
  "join_with sep [] = []"
| "join_with sep [p] = p"
| "join_with sep (p # q # ps) = p @ sep @ join_with sep (q # ps)"

definition digit_char :: "nat \<Rightarrow> char" where
  "digit_char d = char_of (48 + d)"

function show_nat :: "nat \<Rightarrow> string" where
  "show_nat n = (if n < 10 then [digit_char n] else show_nat (n div 10) @ [digit_char (n mod 10)])"
  by pat_completeness auto
termination
  by (relation "measure id") auto

declare show_nat.simps [simp del]

definition show_int :: "int \<Rightarrow> string" where
  "show_int i = (if i < 0 then CHR ''-'' # show_nat (nat (- i)) else show_nat (nat i))"

text \<open>
  The string a template literal \<open>`${v}`\<close> inserts for a value: \<open>ToString\<close>. An array joins
  its elements with a comma, where \<open>null\<close> and \<open>undefined\<close> elements give the empty string.
\<close>

fun template_str :: "jsval \<Rightarrow> string" where
  "template_str JUndefined = ''undefined''"
| "template_str JNull = ''null''"
| "template_str (JBool b) = (if b then ''true'' else ''false'')"
| "template_str (JNum n) = show_int n"
| "template_str (JStr s) = s"
| "template_str (JArr xs) =
     join_with '','' (map (\<lambda>x. if x = JUndefined \<or> x = JNull then [] else template_str x) xs)"
| "template_str (JObj fs) = ''[object Object]''"

text \<open>Truthiness, the operator \<open>!\<close>, and \<open>v === "literal"\<close> for a string literal.\<close>

fun truthy :: "jsval \<Rightarrow> bool" where
  "truthy JUndefined = False"
| "truthy JNull = False"
| "truthy (JBool b) = b"
| "truthy (JNum n) = (n \<noteq> 0)"
| "truthy (JStr s) = (s \<noteq> [])"
| "truthy (JArr xs) = True"
| "truthy (JObj fs) = True"

definition js_not :: "jsval \<Rightarrow> jsval" where
  "js_not v = JBool (\<not> truthy v)"

fun strict_eq_string :: "jsval \<Rightarrow> string \<Rightarrow> bool" where
  "strict_eq_string (JStr s) lit = (s = lit)"
| "strict_eq_string v lit = False"

section \<open>An insertion-ordered \<open>Set\<close> and \<open>Map\<close>\<close>

text \<open>
  A JavaScript \<open>Set\<close> of strings is the list of its members in insertion order; \<open>add\<close> of a
  member already present changes nothing. \<open>Array.from(set)\<close> is that list.
\<close>

definition set_add :: "string list \<Rightarrow> string \<Rightarrow> string list" where
  "set_add s x = (if x \<in> set s then s else s @ [x])"

text \<open>
  A JavaScript \<open>Map\<close> with string keys is the list of its entries in insertion order; \<open>set\<close>
  on a key already present replaces the value and keeps the entry's place.
  \<open>Array.from(map.values())\<close> is the list of the values in that order.
\<close>

fun map_set :: "(string \<times> 'v) list \<Rightarrow> string \<Rightarrow> 'v \<Rightarrow> (string \<times> 'v) list" where
  "map_set [] k v = [(k, v)]"
| "map_set ((k', v') # m) k v =
     (if k' = k then (k, v) # m else (k', v') # map_set m k v)"

definition map_values :: "(string \<times> 'v) list \<Rightarrow> 'v list" where
  "map_values m = map snd m"

section \<open>Domain variants: \<open>getSubdomains\<close>\<close>

text \<open>The two fields of a parsed \<open>URL\<close> the popup reads.\<close>

record url =
  hostname :: string
  origin :: string

text \<open>
  \<open>hostname.split('.')\<close>: the pieces between the dots; a string without a dot (the empty
  string too) gives one piece.
\<close>

function split_dot :: "string \<Rightarrow> string list" where
  "split_dot s =
     (case dropWhile (\<lambda>c. c \<noteq> CHR ''.'') s of
        [] \<Rightarrow> [s]
      | d # rest \<Rightarrow> takeWhile (\<lambda>c. c \<noteq> CHR ''.'') s # split_dot rest)"
  by pat_completeness auto
termination
proof (relation "measure length")
  show "wf (measure length)" by simp
next
  fix s :: string and d rest
  assume "dropWhile (\<lambda>c. c \<noteq> CHR ''.'') s = d # rest"
  moreover have "length (dropWhile (\<lambda>c. c \<noteq> CHR ''.'') s) \<le> length s"
    by (rule length_dropWhile_le)
  ultimately show "(rest, s) \<in> measure length" by simp
qed

declare split_dot.simps [simp del]

text \<open>
  The loop \<open>for (let i = 0; i < parts.length - 1; i++)\<close> of \<open>getSubdomains\<close>, with the set
  built so far. \<open>parts.slice(i)\<close> is \<open>drop i parts\<close>.
\<close>

function getSubdomains_loop :: "string list \<Rightarrow> nat \<Rightarrow> string list \<Rightarrow> string list" where
  "getSubdomains_loop parts i subdomains =
     (if int i < int (length parts) - 1
      then (let subdomain = join_with ''.'' (drop i parts)
            in getSubdomains_loop parts (i + 1)
                 (set_add (set_add subdomains subdomain) (''.'' @ subdomain)))
      else subdomains)"
  by pat_completeness auto
termination
  by (relation "measure (\<lambda>(parts, i, subdomains). length parts - i)") auto

declare getSubdomains_loop.simps [simp del]

text \<open>
  \<open>getSubdomains(url)\<close>, the same in both popup scripts. \<open>parts.slice(-2)\<close> starts at
  \<open>max (length - 2) 0\<close>.
\<close>

definition getSubdomains :: "url \<Rightarrow> string list" where
  "getSubdomains u =
     (let parts = split_dot (hostname u);
          subdomains = getSubdomains_loop parts 0 []
      in if length parts > 1
         then (let mainDomain = join_with ''.'' (drop (length parts - 2) parts)
               in set_add (set_add subdomains mainDomain) (''.'' @ mainDomain))
         else subdomains)"

text \<open>
  The variants as the specification words them: the bare and the leading-dot form of the
  suffix \<open>labels[i:]\<close> for every label position \<open>i\<close> from \<open>0\<close> to \<open>k - 1\<close>, and of the last two
  labels when \<open>k > 1\<close>.
\<close>

definition suffix_forms :: "string list \<Rightarrow> nat \<Rightarrow> string list" where
  "suffix_forms labels i =
     [join_with ''.'' (drop i labels), ''.'' @ join_with ''.'' (drop i labels)]"

definition deriveDomainVariants_spec :: "string \<Rightarrow> string set" where
  "deriveDomainVariants_spec h =
     (let labels = split_dot h; k = length labels
      in set (concat (map (suffix_forms labels) [0 ..< k]))
         \<union> (if k > 1 then set (suffix_forms labels (k - 2)) else {}))"

text \<open>
  The variants the loop bound \<open>i < parts.length - 1\<close> gives: the suffixes of at least two
  labels, that is the positions \<open>0\<close> to \<open>k - 2\<close>.
\<close>

definition deriveDomainVariants_upto_main :: "string \<Rightarrow> string set" where
  "deriveDomainVariants_upto_main h =
     (let labels = split_dot h; k = length labels
      in set (concat (map (suffix_forms labels) [0 ..< k - 1])))"

section \<open>Cookie records: identity key, \<open>cleanCookie\<close>, \<open>mergeAndDedupeCookies\<close>\<close>

type_synonym cookie = jsobject

text \<open>The identity key \<open>`${cookie.name}_${cookie.domain}`\<close>.\<close>

definition cookieKey :: "cookie \<Rightarrow> string" where
  "cookieKey cookie =
     template_str (obj_get cookie ''name'') @ ''_'' @ template_str (obj_get cookie ''domain'')"

text \<open>
  \<open>cleanCookie(cookie, url)\<close>, the same in both popup scripts: the rest pattern
  \<open>{ storeId, hostOnly, expirationDate, session, ...cleanedCookie }\<close> keeps every other own
  property in its order; the object literal \<open>{ ...cleanedCookie, url: url.origin }\<close> copies
  them and then sets \<open>url\<close>.
\<close>

definition cleanCookie :: "cookie \<Rightarrow> url \<Rightarrow> cookie" where
  "cleanCookie cookie u =
     (let cleanedCookie =
            filter (\<lambda>(name, v). name \<notin> set [''storeId'', ''hostOnly'', ''expirationDate'', ''session''])
              cookie
      in obj_set cleanedCookie ''url'' (JStr (origin u)))"

text \<open>
  \<open>mergeAndDedupeCookies(existingCookies, newCookies)\<close> of \<open>CookieManager\<close>: \<open>forEach\<close> over
  the concatenation, each cookie stored in a \<open>Map\<close> under its identity key.
\<close>

definition mergeAndDedupeCookies :: "cookie list \<Rightarrow> cookie list \<Rightarrow> cookie list" where
  "mergeAndDedupeCookies existingCookies newCookies =
     (let cookieMap =
            fold (\<lambda>cookie m. map_set m (cookieKey cookie) cookie)
              (existingCookies @ newCookies) []
      in map_values cookieMap)"

text \<open>One step of the \<open>forEach\<close> loops that store a record under its identity key.\<close>

abbreviation merge_step :: "cookie \<Rightarrow> (string \<times> cookie) list \<Rightarrow> (string \<times> cookie) list" where
  "merge_step \<equiv> (\<lambda>cookie m. map_set m (cookieKey cookie) cookie)"

text \<open>
  The merge as the specification words it: the concatenation folded from the left into a
  mapping from identity key to record, a later record overwriting an earlier one.
\<close>

definition mergeAndDedupe_spec :: "cookie list \<Rightarrow> cookie list \<Rightarrow> (string \<rightharpoonup> cookie)" where
  "mergeAndDedupe_spec existing incoming =
     fold (\<lambda>c m. m(cookieKey c \<mapsto> c)) (existing @ incoming) Map.empty"

text \<open>A record list as a keyed list, and the keys of a list in order of first occurrence.\<close>

definition keyed :: "cookie list \<Rightarrow> (string \<times> cookie) list" where
  "keyed cs = map (\<lambda>c. (cookieKey c, c)) cs"

fun first_occurrences :: "string list \<Rightarrow> string list" where
  "first_occurrences [] = []"
| "first_occurrences (k # ks) = k # filter (\<lambda>k'. k' \<noteq> k) (first_occurrences ks)"

section \<open>The Holder: \<open>background.js\<close>\<close>

text \<open>
  A request carries a \<open>type\<close> and, for a replace-all, a \<open>value\<close>; a response carries a
  \<open>value\<close> or a \<open>status\<close>. An absent \<open>value\<close> is \<open>None\<close>, an absent \<open>status\<close> is
  \<open>undefined\<close>. The variable \<open>cookiesHeap\<close> starts as the empty array and holds whatever the
  last \<open>setCookiesHeap\<close> request carried.
\<close>

record message =
  msg_type :: string
  msg_value :: "cookie list option"

record response =
  resp_value :: "cookie list option"
  resp_status :: jsval

definition initial_cookiesHeap :: "cookie list option" where
  "initial_cookiesHeap = Some []"

text \<open>
  The listener: the new \<open>cookiesHeap\<close> and what is passed to \<open>sendResponse\<close>, \<open>None\<close> when
  \<open>sendResponse\<close> is not called.
\<close>

definition onMessage ::
  "cookie list option \<Rightarrow> message \<Rightarrow> cookie list option \<times> response option" where
  "onMessage cookiesHeap message =
     (if msg_type message = ''getCookiesHeap''
      then (cookiesHeap, Some \<lparr>resp_value = cookiesHeap, resp_status = JUndefined\<rparr>)
      else if msg_type message = ''setCookiesHeap''
      then (msg_value message, Some \<lparr>resp_value = None, resp_status = JStr ''success''\<rparr>)
      else (cookiesHeap, None))"

section \<open>The popup: user interface, Chrome services, handlers\<close>

text \<open>
  The state the handlers act on: the Holder's variable, the two elements of the popup
  page, and the requests handed to \<open>chrome.runtime.sendMessage\<close> so far. The popup and the
  background page are separate contexts: a request and a response carry values, never
  references.
\<close>

record world =
  cookiesHeap :: "cookie list option"
  statusHTML :: string
  errorHTML :: string
  sent :: "message list"

text \<open>
  What the collaborators do during one user action:
  \<^item> \<open>activeTab\<close>: the outcome of \<open>getActiveTab\<close> followed by \<open>new URL(tab.url)\<close>, the
    parsed address or the message of the error thrown;
  \<^item> \<open>cookieStore\<close>: \<open>chrome.cookies.getAll({domain})\<close>, the cookies or the message of the
    rejection;
  \<^item> \<open>completion\<close>: the order in which the concurrent cookie queries complete;
  \<^item> \<open>lastError\<close>: the message of \<open>chrome.runtime.lastError\<close> when a request does not
    reach the Holder;
  \<^item> \<open>clipboard\<close>: the outcome of \<open>navigator.clipboard.writeText\<close>, \<open>None\<close> for success,
    otherwise the message of the rejection.
  An error is carried as its \<open>message\<close>, the only part the handlers read.
\<close>

record env =
  activeTab :: "string + url"
  cookieStore :: "string \<Rightarrow> string + cookie list"
  completion :: "string list \<Rightarrow> string list"
  lastError :: "message \<Rightarrow> string option"
  clipboard :: "string option"

subsection \<open>Texts\<close>

text \<open>
  The texts of \<open>Messages\<close> (\<open>MESSAGES\<close> in \<open>popup.js\<close>) and of the two \<open>catch\<close> blocks, as
  UTF-8 bytes: \<open>ru_error\<close> is the Russian word for "error", \<open>ru_while_copying\<close> is "while
  copying", \<open>ru_collected\<close> is "collected".
\<close>

definition ru_error :: string where
  "ru_error = [CHR 0xD0, CHR 0x9E, CHR 0xD1, CHR 0x88, CHR 0xD0, CHR 0xB8, CHR 0xD0, CHR 0xB1,
               CHR 0xD0, CHR 0xBA, CHR 0xD0, CHR 0xB0]"

definition ru_while_copying :: string where
  "ru_while_copying =
     [CHR 0xD0, CHR 0xBF, CHR 0xD1, CHR 0x80, CHR 0xD0, CHR 0xB8] @ '' '' @
     [CHR 0xD0, CHR 0xBA, CHR 0xD0, CHR 0xBE, CHR 0xD0, CHR 0xBF, CHR 0xD0, CHR 0xB8, CHR 0xD1,
      CHR 0x80, CHR 0xD0, CHR 0xBE, CHR 0xD0, CHR 0xB2, CHR 0xD0, CHR 0xB0, CHR 0xD0, CHR 0xBD,
      CHR 0xD0, CHR 0xB8, CHR 0xD0, CHR 0xB8]"

definition ru_collected :: string where
  "ru_collected = [CHR 0xD0, CHR 0xA1, CHR 0xD0, CHR 0xBE, CHR 0xD0, CHR 0xB1, CHR 0xD1, CHR 0x80,
                   CHR 0xD0, CHR 0xB0, CHR 0xD0, CHR 0xBD, CHR 0xD0, CHR 0xBE]"

definition SUCCESS_COPY :: string where
  "SUCCESS_COPY =
     ''Cookie '' @
     [CHR 0xD1, CHR 0x83, CHR 0xD1, CHR 0x81, CHR 0xD0, CHR 0xBF, CHR 0xD0, CHR 0xB5, CHR 0xD1,
      CHR 0x88, CHR 0xD0, CHR 0xBD, CHR 0xD0, CHR 0xBE] @ '' '' @
     [CHR 0xD1, CHR 0x81, CHR 0xD0, CHR 0xBA, CHR 0xD0, CHR 0xBE, CHR 0xD0, CHR 0xBF, CHR 0xD0,
      CHR 0xB8, CHR 0xD1, CHR 0x80, CHR 0xD0, CHR 0xBE, CHR 0xD0, CHR 0xB2, CHR 0xD0, CHR 0xB0,
      CHR 0xD0, CHR 0xBD] @ '' '' @
     [CHR 0xD0, CHR 0xB2] @ '' '' @
     [CHR 0xD0, CHR 0xB1, CHR 0xD1, CHR 0x83, CHR 0xD1, CHR 0x84, CHR 0xD0, CHR 0xB5, CHR 0xD1,
      CHR 0x80] @ '' '' @
     [CHR 0xD0, CHR 0xBE, CHR 0xD0, CHR 0xB1, CHR 0xD0, CHR 0xBC, CHR 0xD0, CHR 0xB5, CHR 0xD0,
      CHR 0xBD, CHR 0xD0, CHR 0xB0] @ ''!''"

definition SUCCESS_COOKIES_COUNT :: "nat \<Rightarrow> string" where
  "SUCCESS_COOKIES_COUNT count = ru_collected @ '' <b>'' @ show_nat count @ ''</b> cookies''"

definition ERROR_EMPTY_HEAP :: string where
  "ERROR_EMPTY_HEAP = ru_error @ '' '' @ ru_while_copying @ '': CookiesHeap is Empty''"

definition ERROR_NO_RESPONSE :: string where
  "ERROR_NO_RESPONSE = ''No response or value undefined''"

definition ERROR_UPDATE_FAILED :: string where
  "ERROR_UPDATE_FAILED = ''Failed to update global variable''"

text \<open>The texts the two \<open>catch\<close> blocks put before \<open>error.message\<close>.\<close>

definition getCookies_error :: "string \<Rightarrow> string" where
  "getCookies_error msg = ru_error @ '': '' @ msg"

definition copy_error :: "string \<Rightarrow> string" where
  "copy_error msg = ru_error @ '' '' @ ru_while_copying @ '': '' @ msg"

subsection \<open>\<open>UIManager\<close>\<close>

definition updateStatus :: "string \<Rightarrow> world \<Rightarrow> world" where
  "updateStatus status w = w\<lparr>statusHTML := status\<rparr>"

definition updateError :: "string \<Rightarrow> world \<Rightarrow> world" where
  "updateError error w = w\<lparr>errorHTML := error\<rparr>"

definition clearError :: "world \<Rightarrow> world" where
  "clearError w = w\<lparr>errorHTML := []\<rparr>"

subsection \<open>\<open>ChromeAPIService\<close>\<close>

text \<open>
  \<open>sendMessage\<close>: the promise rejects with \<open>chrome.runtime.lastError\<close> when that is set, and
  otherwise resolves with the response of the Holder's listener, which has run. The popup
  sends only the two requests the listener answers.
\<close>

definition sendMessage :: "env \<Rightarrow> message \<Rightarrow> world \<Rightarrow> world \<times> (string + response option)" where
  "sendMessage e message w =
     (let w1 = w\<lparr>sent := sent w @ [message]\<rparr>
      in case lastError e message of
           Some err \<Rightarrow> (w1, Inl err)
         | None \<Rightarrow>
             (case onMessage (cookiesHeap w1) message of
                (heap, response) \<Rightarrow> (w1\<lparr>cookiesHeap := heap\<rparr>, Inr response)))"

definition getCookiesHeap_message :: message where
  "getCookiesHeap_message = \<lparr>msg_type = ''getCookiesHeap'', msg_value = None\<rparr>"

definition setCookiesHeap_message :: "cookie list \<Rightarrow> message" where
  "setCookiesHeap_message v = \<lparr>msg_type = ''setCookiesHeap'', msg_value = Some v\<rparr>"

text \<open>
  \<open>response?.value\<close> and \<open>response?.status\<close>. An array is truthy, so \<open>!response?.value\<close>
  holds exactly when there is no response or no value.
\<close>

definition response_value :: "response option \<Rightarrow> cookie list option" where
  "response_value response = (case response of None \<Rightarrow> None | Some r \<Rightarrow> resp_value r)"

definition response_status :: "response option \<Rightarrow> jsval" where
  "response_status response = (case response of None \<Rightarrow> JUndefined | Some r \<Rightarrow> resp_status r)"

definition getCookiesHeap :: "env \<Rightarrow> world \<Rightarrow> world \<times> (string + cookie list)" where
  "getCookiesHeap e w =
     (case sendMessage e getCookiesHeap_message w of
        (w', Inl err) \<Rightarrow> (w', Inl err)
      | (w', Inr response) \<Rightarrow>
          (case response_value response of
             None \<Rightarrow> (w', Inl ERROR_NO_RESPONSE)
           | Some v \<Rightarrow> (w', Inr v)))"

text \<open>
  The test \<open>!response?.status === "success"\<close> of \<open>setCookiesHeap\<close>: \<open>!\<close> binds tighter than
  \<open>===\<close>. After it, the method of \<open>ChromeAPIService\<close> returns \<open>true\<close> and the one of
  \<open>popup.js\<close> a text.
\<close>

definition setCookiesHeap_guard :: "response option \<Rightarrow> bool" where
  "setCookiesHeap_guard response =
     strict_eq_string (js_not (response_status response)) ''success''"

definition setCookiesHeap_result :: "response option \<Rightarrow> string + bool" where
  "setCookiesHeap_result response =
     (if setCookiesHeap_guard response then Inl ERROR_UPDATE_FAILED else Inr True)"

definition popup_setCookiesHeap_result :: "response option \<Rightarrow> string + string" where
  "popup_setCookiesHeap_result response =
     (if setCookiesHeap_guard response then Inl ''Failed to update global variable''
      else Inr ''Global variable updated successfully'')"

definition setCookiesHeap :: "env \<Rightarrow> cookie list \<Rightarrow> world \<Rightarrow> world \<times> (string + bool)" where
  "setCookiesHeap e v w =
     (case sendMessage e (setCookiesHeap_message v) w of
        (w', Inl err) \<Rightarrow> (w', Inl err)
      | (w', Inr response) \<Rightarrow> (w', setCookiesHeap_result response))"

definition popup_setCookiesHeap :: "env \<Rightarrow> cookie list \<Rightarrow> world \<Rightarrow> world \<times> (string + string)" where
  "popup_setCookiesHeap e v w =
     (case sendMessage e (setCookiesHeap_message v) w of
        (w', Inl err) \<Rightarrow> (w', Inl err)
      | (w', Inr response) \<Rightarrow> (w', popup_setCookiesHeap_result response))"

subsection \<open>Collecting: \<open>getAllCookies\<close>\<close>

text \<open>
  One query per domain variant, all started together. The callbacks run in the order in
  which the queries complete: each stores the cleaned cookies of its query in the shared
  \<open>Map\<close>; the first rejection rejects \<open>Promise.all\<close>. The same in both popup scripts.
\<close>

fun collect :: "env \<Rightarrow> url \<Rightarrow> string list \<Rightarrow> (string \<times> cookie) list
                \<Rightarrow> string + (string \<times> cookie) list" where
  "collect e u [] cookieMap = Inr cookieMap"
| "collect e u (domain # rest) cookieMap =
     (case cookieStore e domain of
        Inl err \<Rightarrow> Inl err
      | Inr cookies \<Rightarrow>
          collect e u rest
            (fold (\<lambda>cookie m. map_set m (cookieKey cookie) (cleanCookie cookie u)) cookies cookieMap))"

definition getAllCookies :: "env \<Rightarrow> url \<Rightarrow> string + cookie list" where
  "getAllCookies e u =
     (let domains = getSubdomains u
      in case collect e u (completion e domains) [] of
           Inl err \<Rightarrow> Inl err
         | Inr cookieMap \<Rightarrow> Inr (map_values cookieMap))"

subsection \<open>The handlers of \<open>CookieManager\<close>\<close>

text \<open>
  Each handler is a \<open>try\<close> block and a \<open>catch\<close> block. The \<open>try\<close> block gives the state it
  leaves and either the message of the error thrown or normal completion. The cookie
  animation only draws, and the text written to the clipboard is not part of the state.
\<close>

definition handleGetCookies_try :: "env \<Rightarrow> world \<Rightarrow> world \<times> (string + unit)" where
  "handleGetCookies_try e w =
     (case activeTab e of
        Inl err \<Rightarrow> (w, Inl err)
      | Inr u \<Rightarrow>
          (case getAllCookies e u of
             Inl err \<Rightarrow> (w, Inl err)
           | Inr cookies \<Rightarrow>
               (case getCookiesHeap e w of
                  (w1, Inl err) \<Rightarrow> (w1, Inl err)
                | (w1, Inr heap) \<Rightarrow>
                    (let updatedHeap = mergeAndDedupeCookies heap cookies
                     in if length updatedHeap > length heap
                        then (case setCookiesHeap e updatedHeap w1 of
                                (w2, Inl err) \<Rightarrow> (w2, Inl err)
                              | (w2, Inr ok) \<Rightarrow>
                                  (updateStatus (SUCCESS_COOKIES_COUNT (length updatedHeap))
                                     (clearError w2), Inr ()))
                        else (w1, Inr ())))))"

definition handleGetCookies :: "env \<Rightarrow> world \<Rightarrow> world" where
  "handleGetCookies e w =
     (case handleGetCookies_try e w of
        (w', Inl err) \<Rightarrow> updateError (getCookies_error err) w'
      | (w', Inr done) \<Rightarrow> w')"

definition handleCopyToClipboard_try :: "env \<Rightarrow> world \<Rightarrow> world \<times> (string + unit)" where
  "handleCopyToClipboard_try e w =
     (case getCookiesHeap e w of
        (w1, Inl err) \<Rightarrow> (w1, Inl err)
      | (w1, Inr heap) \<Rightarrow>
          if length heap = 0 then (updateError ERROR_EMPTY_HEAP w1, Inr ())
          else (case clipboard e of
                  Some err \<Rightarrow> (w1, Inl err)
                | None \<Rightarrow>
                    (case setCookiesHeap e [] (updateStatus SUCCESS_COPY (clearError w1)) of
                       (w2, Inl err) \<Rightarrow> (w2, Inl err)
                     | (w2, Inr ok) \<Rightarrow> (w2, Inr ()))))"

definition handleCopyToClipboard :: "env \<Rightarrow> world \<Rightarrow> world" where
  "handleCopyToClipboard e w =
     (case handleCopyToClipboard_try e w of
        (w', Inl err) \<Rightarrow> updateError (copy_error err) w'
      | (w', Inr done) \<Rightarrow> w')"

subsection \<open>The handlers of \<open>popup.js\<close>\<close>

text \<open>
  \<open>handleGetCookies\<close> of \<open>popup.js\<close> pushes the collected cookies onto its copy of the
  Buffer, folds that into a \<open>Map\<close>, and returns early when the length of the result is the
  length the Buffer had.
\<close>

definition popup_handleGetCookies_try :: "env \<Rightarrow> world \<Rightarrow> world \<times> (string + unit)" where
  "popup_handleGetCookies_try e w =
     (case activeTab e of
        Inl err \<Rightarrow> (w, Inl err)
      | Inr u \<Rightarrow>
          (case getAllCookies e u of
             Inl err \<Rightarrow> (w, Inl err)
           | Inr cookies \<Rightarrow>
               (case getCookiesHeap e w of
                  (w1, Inl err) \<Rightarrow> (w1, Inl err)
                | (w1, Inr heap) \<Rightarrow>
                    (let lengthBeforeUpdate = length heap;
                         pushed = heap @ cookies;
                         updatedHeapMap =
                           fold (\<lambda>cookie m. map_set m (cookieKey cookie) cookie) pushed [];
                         updatedHeap = map_values updatedHeapMap
                     in if length updatedHeap = lengthBeforeUpdate then (w1, Inr ())
                        else (case popup_setCookiesHeap e updatedHeap w1 of
                                (w2, Inl err) \<Rightarrow> (w2, Inl err)
                              | (w2, Inr ok) \<Rightarrow>
                                  (updateStatus (SUCCESS_COOKIES_COUNT (length updatedHeap))
                                     (clearError w2), Inr ()))))))"

definition popup_handleGetCookies :: "env \<Rightarrow> world \<Rightarrow> world" where
  "popup_handleGetCookies e w =
     (case popup_handleGetCookies_try e w of
        (w', Inl err) \<Rightarrow> updateError (getCookies_error err) w'
      | (w', Inr done) \<Rightarrow> w')"

definition popup_handleCopyToClipboard_try :: "env \<Rightarrow> world \<Rightarrow> world \<times> (string + unit)" where
  "popup_handleCopyToClipboard_try e w =
     (case getCookiesHeap e w of
        (w1, Inl err) \<Rightarrow> (w1, Inl err)
      | (w1, Inr heap) \<Rightarrow>
          if length heap = 0 then (updateError ERROR_EMPTY_HEAP w1, Inr ())
          else (case clipboard e of
                  Some err \<Rightarrow> (w1, Inl err)
                | None \<Rightarrow>
                    (case popup_setCookiesHeap e [] (updateStatus SUCCESS_COPY (clearError w1)) of
                       (w2, Inl err) \<Rightarrow> (w2, Inl err)
                     | (w2, Inr ok) \<Rightarrow> (w2, Inr ()))))"

definition popup_handleCopyToClipboard :: "env \<Rightarrow> world \<Rightarrow> world" where
  "popup_handleCopyToClipboard e w =
     (case popup_handleCopyToClipboard_try e w of
        (w', Inl err) \<Rightarrow> updateError (copy_error err) w'
      | (w', Inr done) \<Rightarrow> w')"

text \<open>
  The requests a handler has handed to \<open>sendMessage\<close>, the replace-all requests among them,
  and a Buffer without two records of the same identity key.
\<close>

definition new_messages :: "world \<Rightarrow> world \<Rightarrow> message list" where
  "new_messages w w' = drop (length (sent w)) (sent w')"

definition writes :: "message list \<Rightarrow> message list" where
  "writes ms = filter (\<lambda>m. msg_type m = ''setCookiesHeap'') ms"

definition deduped :: "cookie list option \<Rightarrow> bool" where
  "deduped buffer = (case buffer of None \<Rightarrow> False | Some v \<Rightarrow> distinct (map cookieKey v))"

section \<open>Runs and scenarios\<close>

text \<open>
  The four handlers a click can start, and the states of the system: it starts with the
  empty Buffer, and every click runs one handler with whatever the collaborators do.
\<close>

definition handlers :: "(env \<Rightarrow> world \<Rightarrow> world) list" where
  "handlers =
     [handleGetCookies, handleCopyToClipboard, popup_handleGetCookies, popup_handleCopyToClipboard]"

inductive reachable :: "world \<Rightarrow> bool" where
  start: "cookiesHeap w = initial_cookiesHeap \<Longrightarrow> reachable w"
| step: "reachable w \<Longrightarrow> h \<in> set handlers \<Longrightarrow> reachable (h e w)"

text \<open>
  A page \<open>https://a.b\<close> with one cookie, and collaborators that all succeed; the same with
  no cookie in the store; the same with the transport failing on every replace-all
  request.
\<close>

definition example_url :: url where
  "example_url = \<lparr>hostname = ''a.b'', origin = ''https://a.b''\<rparr>"

definition example_cookie :: cookie where
  "example_cookie =
     [(''name'', JStr ''sid''), (''domain'', JStr ''a.b''), (''value'', JStr ''1''),
      (''storeId'', JStr ''0''), (''session'', JBool True)]"

definition example_record :: cookie where
  "example_record =
     [(''name'', JStr ''sid''), (''domain'', JStr ''a.b''), (''value'', JStr ''1''),
      (''url'', JStr ''https://a.b'')]"

definition example_env :: env where
  "example_env =
     \<lparr>activeTab = Inr example_url,
      cookieStore = (\<lambda>domain. if domain = ''a.b'' then Inr [example_cookie] else Inr []),
      completion = (\<lambda>domains. domains),
      lastError = (\<lambda>message. None),
      clipboard = None\<rparr>"

definition no_cookies_env :: env where
  "no_cookies_env = example_env\<lparr>cookieStore := (\<lambda>domain. Inr [])\<rparr>"

definition transport_down_env :: env where
  "transport_down_env =
     example_env\<lparr>lastError := (\<lambda>message.
        if msg_type message = ''setCookiesHeap''
        then Some ''Could not establish connection. Receiving end does not exist.''
        else None)\<rparr>"

text \<open>The popup just opened on the empty Buffer, and on a Buffer of one record.\<close>

definition initial_world :: world where
  "initial_world =
     \<lparr>cookiesHeap = initial_cookiesHeap, statusHTML = SUCCESS_COOKIES_COUNT 0,
      errorHTML = [], sent = []\<rparr>"

definition one_cookie_world :: world where
  "one_cookie_world =
     \<lparr>cookiesHeap = Some [example_record], statusHTML = SUCCESS_COOKIES_COUNT 1,
      errorHTML = [], sent = []\<rparr>"

section \<open>Facts about the containers\<close>

lemma set_set_add: "set (set_add s x) = insert x (set s)"
  by (auto simp: set_add_def)

lemma distinct_set_add: "distinct s \<Longrightarrow> distinct (set_add s x)"
  by (simp add: set_add_def)

lemma split_dot_nonempty: "split_dot s \<noteq> []"
  by (subst split_dot.simps) (simp split: list.splits)

lemma getSubdomains_loop_distinct:
  "distinct acc \<Longrightarrow> distinct (getSubdomains_loop parts i acc)"
proof (induction parts i acc rule: getSubdomains_loop.induct)
  case (1 parts i subdomains)
  show ?case
  proof (cases "int i < int (length parts) - 1")
    case True
    have "distinct (set_add (set_add subdomains (join_with ''.'' (drop i parts)))
                      (''.'' @ join_with ''.'' (drop i parts)))"
      using "1.prems" by (intro distinct_set_add)
    with True "1.IH" show ?thesis
      by (subst getSubdomains_loop.simps) (simp add: Let_def)
  next
    case False
    with "1.prems" show ?thesis
      by (subst getSubdomains_loop.simps) simp
  qed
qed

lemma getSubdomains_loop_set:
  "set (getSubdomains_loop parts i acc) =
     set acc \<union> set (concat (map (suffix_forms parts) [i ..< length parts - 1]))"
proof (induction parts i acc rule: getSubdomains_loop.induct)
  case (1 parts i subdomains)
  let ?sub = "join_with ''.'' (drop i parts)"
  let ?acc = "set_add (set_add subdomains ?sub) (''.'' @ ?sub)"
  show ?case
  proof (cases "int i < int (length parts) - 1")
    case True
    then have lt: "i < length parts - 1" by linarith
    then have range: "[i ..< length parts - 1] = i # [i + 1 ..< length parts - 1]"
      by (simp add: upt_conv_Cons)
    have step: "getSubdomains_loop parts i subdomains = getSubdomains_loop parts (i + 1) ?acc"
      using True by (subst getSubdomains_loop.simps) (simp add: Let_def)
    have ih: "set (getSubdomains_loop parts (i + 1) ?acc) =
        set ?acc \<union> set (concat (map (suffix_forms parts) [i + 1 ..< length parts - 1]))"
      using True "1.IH" by simp
    have acc: "set ?acc = set subdomains \<union> set (suffix_forms parts i)"
      by (auto simp: set_set_add suffix_forms_def)
    have "set (concat (map (suffix_forms parts) [i ..< length parts - 1])) =
        set (suffix_forms parts i)
          \<union> set (concat (map (suffix_forms parts) [i + 1 ..< length parts - 1]))"
      by (subst range) simp
    with step ih acc show ?thesis
      by (simp only: Un_assoc)
  next
    case False
    then have "[i ..< length parts - 1] = []" by simp
    with False show ?thesis
      by (subst getSubdomains_loop.simps) simp
  qed
qed

lemma main_domain_in_loop:
  assumes "length parts > 1"
  shows "set (suffix_forms parts (length parts - 2))
           \<subseteq> set (concat (map (suffix_forms parts) [0 ..< length parts - 1]))"
proof -
  from assms have "length parts - 2 \<in> set [0 ..< length parts - 1]" by auto
  then show ?thesis by auto
qed

lemma map_of_map_set: "map_of (map_set m k v) = (map_of m)(k \<mapsto> v)"
  by (induction m) auto

lemma keys_map_set:
  "map fst (map_set m k v) = (if k \<in> set (map fst m) then map fst m else map fst m @ [k])"
  by (induction m) force+

lemma distinct_map_set: "distinct (map fst m) \<Longrightarrow> distinct (map fst (map_set m k v))"
  by (simp add: keys_map_set)

lemma map_set_fresh: "k \<notin> set (map fst m) \<Longrightarrow> map_set m k v = m @ [(k, v)]"
  by (induction m) auto

lemma values_map_set: "set (map snd (map_set m k v)) \<subseteq> insert v (set (map snd m))"
proof (induction m)
  case Nil
  show ?case by simp
next
  case (Cons p m)
  obtain k' v' where p: "p = (k', v')" by (cases p)
  show ?case
  proof (cases "k' = k")
    case True
    with p show ?thesis by auto
  next
    case False
    with p Cons.IH show ?thesis by fastforce
  qed
qed

lemma map_of_obj_set: "map_of (obj_set obj name v) = (map_of obj)(name \<mapsto> v)"
  by (induction obj) auto

lemma map_of_filter_names:
  "map_of (filter (\<lambda>(name, v). name \<notin> S) obj) f = (if f \<in> S then None else map_of obj f)"
  by (induction obj) auto

lemma merge_fold_map_of:
  "map_of (fold merge_step cs m) = fold (\<lambda>c m. m(cookieKey c \<mapsto> c)) cs (map_of m)"
  by (induction cs arbitrary: m) (simp_all add: map_of_map_set)

lemma merge_fold_distinct:
  "distinct (map fst m) \<Longrightarrow> distinct (map fst (fold merge_step cs m))"
  by (induction cs arbitrary: m) (simp_all add: distinct_map_set)

lemma map_set_keyed:
  "m = keyed (map snd m) \<Longrightarrow> map_set m (cookieKey c) c = keyed (map snd (map_set m (cookieKey c) c))"
proof (induction m)
  case Nil
  show ?case by (simp add: keyed_def)
next
  case (Cons p m)
  from Cons.prems have "p = (cookieKey (snd p), snd p)" and m: "m = keyed (map snd m)"
    by (simp_all add: keyed_def)
  then have p: "fst p = cookieKey (snd p)"
    by (metis fst_conv)
  from Cons.IH [OF m] p m show ?case
    by (cases p) (auto simp: keyed_def)
qed

lemma merge_fold_keyed:
  "m = keyed (map snd m) \<Longrightarrow> fold merge_step cs m = keyed (map snd (fold merge_step cs m))"
proof (induction cs arbitrary: m)
  case Nil
  then show ?case by simp
next
  case (Cons c cs)
  from Cons.prems have "map_set m (cookieKey c) c = keyed (map snd (map_set m (cookieKey c) c))"
    by (rule map_set_keyed)
  from Cons.IH [OF this] show ?case by simp
qed

lemma merge_fold_values:
  "set (map snd (fold merge_step cs m)) \<subseteq> set (map snd m) \<union> set cs"
proof (induction cs arbitrary: m)
  case Nil
  show ?case by simp
next
  case (Cons c cs)
  have "set (map snd (fold merge_step cs (map_set m (cookieKey c) c)))
          \<subseteq> set (map snd (map_set m (cookieKey c) c)) \<union> set cs"
    by (rule Cons.IH)
  also have "\<dots> \<subseteq> insert c (set (map snd m)) \<union> set cs"
    using values_map_set [of m "cookieKey c" c] by auto
  finally show ?case by auto
qed

lemma merge_fold_keys:
  "map fst (fold merge_step cs m) =
     map fst m @ filter (\<lambda>k. k \<notin> set (map fst m)) (first_occurrences (map cookieKey cs))"
proof (induction cs arbitrary: m)
  case Nil
  show ?case by simp
next
  case (Cons c cs)
  let ?k = "cookieKey c"
  let ?ks = "first_occurrences (map cookieKey cs)"
  show ?case
  proof (cases "?k \<in> set (map fst m)")
    case True
    then have "filter (\<lambda>k. k \<notin> set (map fst m)) (filter (\<lambda>k'. k' \<noteq> ?k) ?ks)
               = filter (\<lambda>k. k \<notin> set (map fst m)) ?ks"
      by (auto intro: filter_cong)
    with True Cons.IH [of "map_set m ?k c"] show ?thesis
      by (simp add: keys_map_set)
  next
    case False
    then have "filter (\<lambda>k. k \<notin> set (map fst m @ [?k])) ?ks
               = filter (\<lambda>k. k \<notin> set (map fst m)) (filter (\<lambda>k'. k' \<noteq> ?k) ?ks)"
      by (auto intro: filter_cong)
    with False Cons.IH [of "map_set m ?k c"] show ?thesis
      by (simp add: keys_map_set)
  qed
qed

lemma merge_fold_fresh:
  "distinct (map fst m @ map cookieKey cs) \<Longrightarrow> fold merge_step cs m = m @ keyed cs"
proof (induction cs arbitrary: m)
  case Nil
  show ?case by (simp add: keyed_def)
next
  case (Cons c cs)
  from Cons.prems have fresh: "cookieKey c \<notin> set (map fst m)" by auto
  then have step: "map_set m (cookieKey c) c = m @ [(cookieKey c, c)]"
    by (rule map_set_fresh)
  from Cons.prems have "distinct (map fst (m @ [(cookieKey c, c)]) @ map cookieKey cs)"
    by auto
  from Cons.IH [OF this] step show ?case
    by (simp add: keyed_def)
qed

lemma update_then_add:
  "m(k \<mapsto> c) ++ map_of xs = m ++ map_of (xs @ [(k, c)])"
proof -
  have "m ++ map_of (xs @ [(k, c)]) = m ++ ([k \<mapsto> c] ++ map_of xs)"
    by (simp only: map_of_append) simp
  also have "\<dots> = (m ++ [k \<mapsto> c]) ++ map_of xs"
    by (simp only: map_add_assoc)
  also have "m ++ [k \<mapsto> c] = m(k \<mapsto> c)"
    by simp
  finally show ?thesis by simp
qed

lemma fold_update_last_wins:
  "fold (\<lambda>c m. m(cookieKey c \<mapsto> c)) cs m = m ++ map_of (rev (keyed cs))"
proof (induction cs arbitrary: m)
  case Nil
  show ?case by (simp add: keyed_def)
next
  case (Cons c cs)
  have "fold (\<lambda>c m. m(cookieKey c \<mapsto> c)) (c # cs) m
        = fold (\<lambda>c m. m(cookieKey c \<mapsto> c)) cs (m(cookieKey c \<mapsto> c))"
    by simp
  also have "\<dots> = m(cookieKey c \<mapsto> c) ++ map_of (rev (keyed cs))"
    by (rule Cons.IH)
  also have "\<dots> = m ++ map_of (rev (keyed cs) @ [(cookieKey c, c)])"
    by (rule update_then_add)
  also have "rev (keyed cs) @ [(cookieKey c, c)] = rev (keyed (c # cs))"
    by (simp add: keyed_def)
  finally show ?case .
qed

lemma first_occurrences_set: "set (first_occurrences ks) = set ks"
  by (induction ks) auto

text \<open>What \<open>mergeAndDedupeCookies\<close> returns, in the terms of the lemmas above.\<close>

lemma merge_as_fold:
  "keyed (mergeAndDedupeCookies xs ys) = fold merge_step (xs @ ys) []"
proof -
  have "fold merge_step (xs @ ys) [] = keyed (map snd (fold merge_step (xs @ ys) []))"
    by (rule merge_fold_keyed) (simp add: keyed_def)
  then show ?thesis
    by (simp add: mergeAndDedupeCookies_def map_values_def Let_def)
qed

lemma keys_keyed: "map fst (keyed cs) = map cookieKey cs"
  by (simp add: keyed_def comp_def)

lemma values_keyed: "map snd (keyed cs) = cs"
  by (simp add: keyed_def comp_def)

lemma merge_keys:
  "map cookieKey (mergeAndDedupeCookies xs ys) = first_occurrences (map cookieKey (xs @ ys))"
proof -
  have "map cookieKey (mergeAndDedupeCookies xs ys) = map fst (fold merge_step (xs @ ys) [])"
    by (simp only: merge_as_fold [symmetric] keys_keyed)
  then show ?thesis
    by (simp only: merge_fold_keys) simp
qed

lemma merge_distinct_keys: "distinct (map cookieKey (mergeAndDedupeCookies xs ys))"
proof -
  have "distinct (map fst (fold merge_step (xs @ ys) []))"
    by (rule merge_fold_distinct) simp
  then show ?thesis
    by (simp only: merge_as_fold [symmetric] keys_keyed)
qed

lemma merge_map_of:
  "map_of (keyed (mergeAndDedupeCookies xs ys)) = mergeAndDedupe_spec xs ys"
  by (simp only: merge_as_fold merge_fold_map_of mergeAndDedupe_spec_def) simp

lemma merge_values_subset: "set (mergeAndDedupeCookies xs ys) \<subseteq> set xs \<union> set ys"
proof -
  from merge_fold_values [of "xs @ ys" "[]"] show ?thesis
    by (simp add: mergeAndDedupeCookies_def map_values_def Let_def)
qed

lemma merge_distinct_identity:
  assumes "distinct (map cookieKey (xs @ ys))"
  shows "mergeAndDedupeCookies xs ys = xs @ ys"
proof -
  from assms have "fold merge_step (xs @ ys) [] = [] @ keyed (xs @ ys)"
    by (intro merge_fold_fresh) simp
  then have "keyed (mergeAndDedupeCookies xs ys) = keyed (xs @ ys)"
    by (simp add: merge_as_fold)
  then have "map snd (keyed (mergeAndDedupeCookies xs ys)) = map snd (keyed (xs @ ys))"
    by simp
  then show ?thesis
    by (simp only: values_keyed)
qed

section \<open>Facts about the services and the handlers\<close>

lemma setCookiesHeap_guard_never: "\<not> setCookiesHeap_guard response"
  by (simp add: setCookiesHeap_guard_def js_not_def)

lemma getCookiesHeap_eq:
  "getCookiesHeap e w =
     (w\<lparr>sent := sent w @ [getCookiesHeap_message]\<rparr>,
      case lastError e getCookiesHeap_message of
        Some err \<Rightarrow> Inl err
      | None \<Rightarrow> (case cookiesHeap w of None \<Rightarrow> Inl ERROR_NO_RESPONSE | Some v \<Rightarrow> Inr v))"
  by (simp add: getCookiesHeap_def sendMessage_def onMessage_def getCookiesHeap_message_def
        response_value_def Let_def split: option.splits)

lemma setCookiesHeap_eq:
  "setCookiesHeap e v w =
     (case lastError e (setCookiesHeap_message v) of
        Some err \<Rightarrow> (w\<lparr>sent := sent w @ [setCookiesHeap_message v]\<rparr>, Inl err)
      | None \<Rightarrow> (w\<lparr>sent := sent w @ [setCookiesHeap_message v], cookiesHeap := Some v\<rparr>, Inr True))"
  by (simp add: setCookiesHeap_def sendMessage_def onMessage_def setCookiesHeap_message_def
        setCookiesHeap_result_def setCookiesHeap_guard_never Let_def split: option.splits)

lemma popup_setCookiesHeap_eq:
  "popup_setCookiesHeap e v w =
     (case lastError e (setCookiesHeap_message v) of
        Some err \<Rightarrow> (w\<lparr>sent := sent w @ [setCookiesHeap_message v]\<rparr>, Inl err)
      | None \<Rightarrow> (w\<lparr>sent := sent w @ [setCookiesHeap_message v], cookiesHeap := Some v\<rparr>,
                 Inr ''Global variable updated successfully''))"
  by (simp add: popup_setCookiesHeap_def sendMessage_def onMessage_def setCookiesHeap_message_def
        popup_setCookiesHeap_result_def setCookiesHeap_guard_never Let_def split: option.splits)

lemma popup_updatedHeap:
  "map_values (fold merge_step cookies (fold merge_step heap []))
     = mergeAndDedupeCookies heap cookies"
  by (simp add: mergeAndDedupeCookies_def)

lemma writes_get [simp]: "writes [getCookiesHeap_message] = []"
  by (simp add: writes_def getCookiesHeap_message_def)

lemma writes_get_set [simp]:
  "writes [getCookiesHeap_message, setCookiesHeap_message v] = [setCookiesHeap_message v]"
  by (simp add: writes_def getCookiesHeap_message_def setCookiesHeap_message_def)


lemmas service_eqs = getCookiesHeap_eq setCookiesHeap_eq popup_setCookiesHeap_eq popup_updatedHeap

lemmas ui_defs = updateStatus_def updateError_def clearError_def

lemma deduped_merge: "deduped (Some (mergeAndDedupeCookies heap cookies))"
  by (simp add: deduped_def merge_distinct_keys)

lemma deduped_empty: "deduped (Some [])"
  by (simp add: deduped_def)

lemma msg_type_get [simp]: "msg_type getCookiesHeap_message = ''getCookiesHeap''"
  by (simp add: getCookiesHeap_message_def)

lemma msg_type_set [simp]: "msg_type (setCookiesHeap_message v) = ''setCookiesHeap''"
  by (simp add: setCookiesHeap_message_def)

lemma msg_value_set [simp]: "msg_value (setCookiesHeap_message v) = Some v"
  by (simp add: setCookiesHeap_message_def)

lemma handleGetCookies_writes:
  "list_all (\<lambda>m. deduped (msg_value m)) (writes (new_messages w (handleGetCookies e w)))
   \<and> (cookiesHeap (handleGetCookies e w) = cookiesHeap w \<or> deduped (cookiesHeap (handleGetCookies e w)))"
  by (auto simp: handleGetCookies_def handleGetCookies_try_def service_eqs ui_defs Let_def
        new_messages_def deduped_merge writes_def
        split: sum.splits option.splits)

lemma handleCopyToClipboard_writes:
  "list_all (\<lambda>m. deduped (msg_value m)) (writes (new_messages w (handleCopyToClipboard e w)))
   \<and> (cookiesHeap (handleCopyToClipboard e w) = cookiesHeap w \<or> deduped (cookiesHeap (handleCopyToClipboard e w)))"
  by (auto simp: handleCopyToClipboard_def handleCopyToClipboard_try_def service_eqs ui_defs Let_def
        new_messages_def deduped_empty writes_def
        split: sum.splits option.splits)

lemma popup_handleGetCookies_writes:
  "list_all (\<lambda>m. deduped (msg_value m)) (writes (new_messages w (popup_handleGetCookies e w)))
   \<and> (cookiesHeap (popup_handleGetCookies e w) = cookiesHeap w \<or> deduped (cookiesHeap (popup_handleGetCookies e w)))"
  by (auto simp: popup_handleGetCookies_def popup_handleGetCookies_try_def service_eqs ui_defs Let_def
        new_messages_def deduped_merge writes_def
        split: sum.splits option.splits)

lemma popup_handleCopyToClipboard_writes:
  "list_all (\<lambda>m. deduped (msg_value m)) (writes (new_messages w (popup_handleCopyToClipboard e w)))
   \<and> (cookiesHeap (popup_handleCopyToClipboard e w) = cookiesHeap w \<or> deduped (cookiesHeap (popup_handleCopyToClipboard e w)))"
  by (auto simp: popup_handleCopyToClipboard_def popup_handleCopyToClipboard_try_def service_eqs ui_defs Let_def
        new_messages_def deduped_empty writes_def
        split: sum.splits option.splits)

lemma merge_not_shorter:
  assumes "distinct (map cookieKey heap)"
  shows "length heap \<le> length (mergeAndDedupeCookies heap collected)"
proof -
  from assms have "fold merge_step heap [] = [] @ keyed heap"
    by (intro merge_fold_fresh) simp
  then have "fold merge_step (heap @ collected) [] = fold merge_step collected (keyed heap)"
    by simp
  then have "keyed (mergeAndDedupeCookies heap collected)
             = fold merge_step collected (keyed heap)"
    by (simp only: merge_as_fold)
  then have "map fst (keyed (mergeAndDedupeCookies heap collected))
             = map fst (fold merge_step collected (keyed heap))"
    by simp
  then have "map cookieKey (mergeAndDedupeCookies heap collected)
             = map fst (fold merge_step collected (keyed heap))"
    by (simp only: keys_keyed)
  also have "\<dots> = map fst (keyed heap)
      @ filter (\<lambda>k. k \<notin> set (map fst (keyed heap))) (first_occurrences (map cookieKey collected))"
    by (rule merge_fold_keys)
  finally have "length (map cookieKey (mergeAndDedupeCookies heap collected))
                \<ge> length (map fst (keyed heap))"
    by simp
  then show ?thesis
    by (simp add: keyed_def)
qed

lemma error_texts_nonempty:
  "getCookies_error err \<noteq> []" "copy_error err \<noteq> []" "ERROR_EMPTY_HEAP \<noteq> []"
  by (simp_all add: getCookies_error_def copy_error_def ERROR_EMPTY_HEAP_def ru_error_def)

lemma reachable_buffer_deduped: "reachable w \<Longrightarrow> deduped (cookiesHeap w)"
proof (induction rule: reachable.induct)
  case (start w)
  then show ?case by (simp add: initial_cookiesHeap_def deduped_def)
next
  case (step w h e)
  from step.hyps(2) consider "h = handleGetCookies" | "h = handleCopyToClipboard"
    | "h = popup_handleGetCookies" | "h = popup_handleCopyToClipboard"
    by (auto simp: handlers_def)
  then have "cookiesHeap (h e w) = cookiesHeap w \<or> deduped (cookiesHeap (h e w))"
  proof cases
    case 1
    then show ?thesis by (simp only: handleGetCookies_writes)
  next
    case 2
    then show ?thesis by (simp only: handleCopyToClipboard_writes)
  next
    case 3
    then show ?thesis by (simp only: popup_handleGetCookies_writes)
  next
    case 4
    then show ?thesis by (simp only: popup_handleCopyToClipboard_writes)
  qed
  with step.IH show ?case by auto
qed

section \<open>The scenarios, evaluated\<close>

lemma split_example: "split_dot ''a.b.example.com'' = [''a'', ''b'', ''example'', ''com'']"
  by code_simp

lemma reachable_initial_world: "reachable initial_world"
  by (rule reachable.start) (simp add: initial_world_def)

lemma example_facts:
  "cookiesHeap initial_world = Some []" "sent initial_world = []"
  "cookiesHeap one_cookie_world = Some [example_record]" "sent one_cookie_world = []"
  "activeTab example_env = Inr example_url"
  by (simp_all add: initial_world_def initial_cookiesHeap_def one_cookie_world_def example_env_def)

lemma collects_example:
  "handleGetCookies example_env initial_world =
     \<lparr>cookiesHeap = Some [example_record], statusHTML = SUCCESS_COOKIES_COUNT 1,
      errorHTML = [], sent = [getCookiesHeap_message, setCookiesHeap_message [example_record]]\<rparr>"
  by code_simp

lemma collects_nothing_new:
  "getAllCookies example_env example_url = Inr [example_record]"
  "mergeAndDedupeCookies [example_record] [example_record] = [example_record]"
  "handleGetCookies example_env one_cookie_world
     = one_cookie_world\<lparr>sent := [getCookiesHeap_message]\<rparr>"
  "popup_handleGetCookies example_env one_cookie_world
     = one_cookie_world\<lparr>sent := [getCookiesHeap_message]\<rparr>"
  by code_simp+

lemma export_examples:
  "handleCopyToClipboard example_env one_cookie_world =
     \<lparr>cookiesHeap = Some [], statusHTML = SUCCESS_COPY, errorHTML = [],
      sent = [getCookiesHeap_message, setCookiesHeap_message []]\<rparr>"
  "popup_handleCopyToClipboard example_env one_cookie_world =
     \<lparr>cookiesHeap = Some [], statusHTML = SUCCESS_COPY, errorHTML = [],
      sent = [getCookiesHeap_message, setCookiesHeap_message []]\<rparr>"
  "handleCopyToClipboard transport_down_env one_cookie_world =
     \<lparr>cookiesHeap = Some [example_record], statusHTML = SUCCESS_COPY,
      errorHTML = copy_error ''Could not establish connection. Receiving end does not exist.'',
      sent = [getCookiesHeap_message, setCookiesHeap_message []]\<rparr>"
  "clipboard example_env = None" "clipboard transport_down_env = None"
  "lastError example_env getCookiesHeap_message = None"
  "lastError transport_down_env getCookiesHeap_message = None"
  "lastError example_env (setCookiesHeap_message []) = None"
  by code_simp+

lemma banner_examples:
  "handleCopyToClipboard no_cookies_env initial_world
     = initial_world\<lparr>errorHTML := ERROR_EMPTY_HEAP, sent := [getCookiesHeap_message]\<rparr>"
  "snd (handleGetCookies_try no_cookies_env
          (initial_world\<lparr>errorHTML := ERROR_EMPTY_HEAP, sent := [getCookiesHeap_message]\<rparr>))
     = Inr ()"
  "handleGetCookies no_cookies_env
          (initial_world\<lparr>errorHTML := ERROR_EMPTY_HEAP, sent := [getCookiesHeap_message]\<rparr>)
     = initial_world\<lparr>errorHTML := ERROR_EMPTY_HEAP,
                      sent := [getCookiesHeap_message, getCookiesHeap_message]\<rparr>"
  "snd (handleGetCookies_try example_env
          (initial_world\<lparr>errorHTML := ERROR_EMPTY_HEAP, sent := [getCookiesHeap_message]\<rparr>))
     = Inr ()"
  "handleGetCookies example_env
          (initial_world\<lparr>errorHTML := ERROR_EMPTY_HEAP, sent := [getCookiesHeap_message]\<rparr>)
     = \<lparr>cookiesHeap = Some [example_record], statusHTML = SUCCESS_COOKIES_COUNT 1,
        errorHTML = [],
        sent = [getCookiesHeap_message, getCookiesHeap_message,
                setCookiesHeap_message [example_record]]\<rparr>"
  by code_simp+

section \<open>Claims\<close>

text \<open>
  C1, as the code has it. For every hostname with \<open>k\<close> dot-separated labels,
  \<open>getSubdomains\<close> returns, without duplicates, exactly the bare and the leading-dot form of
  every suffix \<open>labels[i:]\<close> for \<open>i\<close> from \<open>0\<close> to \<open>k - 2\<close>. When \<open>k > 1\<close> the bare and
  the leading-dot form of the last two labels are among them; when \<open>k = 1\<close> the result is
  empty.
\<close>

theorem getSubdomains_variants:
  "distinct (getSubdomains u)
   \<and> set (getSubdomains u) = deriveDomainVariants_upto_main (hostname u)
   \<and> (length (split_dot (hostname u)) > 1 \<longrightarrow>
        set (suffix_forms (split_dot (hostname u)) (length (split_dot (hostname u)) - 2))
          \<subseteq> set (getSubdomains u))
   \<and> (length (split_dot (hostname u)) = 1 \<longrightarrow> getSubdomains u = [])"
proof -
  let ?parts = "split_dot (hostname u)"
  let ?loop = "getSubdomains_loop ?parts 0 []"
  have d: "distinct ?loop"
    by (rule getSubdomains_loop_distinct) simp
  have s: "set ?loop = set (concat (map (suffix_forms ?parts) [0 ..< length ?parts - 1]))"
    by (simp add: getSubdomains_loop_set)
  have one: "length ?parts = 1 \<Longrightarrow> ?loop = []"
    by (subst getSubdomains_loop.simps) simp
  show ?thesis
  proof (cases "length ?parts > 1")
    case True
    from main_domain_in_loop [OF True] s
    have main: "set (suffix_forms ?parts (length ?parts - 2)) \<subseteq> set ?loop" by simp
    then have m: "join_with ''.'' (drop (length ?parts - 2) ?parts) \<in> set ?loop"
      and md: "''.'' @ join_with ''.'' (drop (length ?parts - 2) ?parts) \<in> set ?loop"
      by (simp_all add: suffix_forms_def)
    have eq: "getSubdomains u = ?loop"
      using True m md by (simp add: getSubdomains_def Let_def set_add_def)
    from main have "set (suffix_forms ?parts (length ?parts - 2)) \<subseteq> set (getSubdomains u)"
      by (simp only: eq)
    moreover from eq d have "distinct (getSubdomains u)"
      by simp
    moreover from eq s have "set (getSubdomains u) = deriveDomainVariants_upto_main (hostname u)"
      by (simp add: deriveDomainVariants_upto_main_def Let_def)
    moreover from True have "length ?parts \<noteq> 1"
      by simp
    ultimately show ?thesis by blast
  next
    case False
    then have "getSubdomains u = ?loop"
      by (simp add: getSubdomains_def Let_def)
    with d s one False show ?thesis
      by (simp add: deriveDomainVariants_upto_main_def Let_def)
  qed
qed

text \<open>
  The hostname \<open>localhost\<close> has one label, and no variant; the hostname
  \<open>a.b.example.com\<close> has four, and \<open>example.com\<close> and \<open>.example.com\<close> are among its variants.
\<close>

theorem getSubdomains_variants_witness:
  "length (split_dot ''localhost'') = 1
   \<and> getSubdomains \<lparr>hostname = ''localhost'', origin = ''http://localhost''\<rparr> = []
   \<and> length (split_dot ''a.b.example.com'') > 1
   \<and> set [''example.com'', ''.example.com'']
        \<subseteq> set (getSubdomains \<lparr>hostname = ''a.b.example.com'',
                                   origin = ''https://a.b.example.com''\<rparr>)"
proof -
  let ?local = "\<lparr>hostname = ''localhost'', origin = ''http://localhost''\<rparr>"
  let ?page = "\<lparr>hostname = ''a.b.example.com'', origin = ''https://a.b.example.com''\<rparr>"
  have one: "length (split_dot (hostname ?local)) = 1"
    by (simp add: split_dot.simps)
  have four: "length (split_dot (hostname ?page)) > 1"
    by (simp add: split_example)
  from getSubdomains_variants [of ?local]
  have "length (split_dot (hostname ?local)) = 1 \<longrightarrow> getSubdomains ?local = []"
    by (rule conjunct2 [THEN conjunct2, THEN conjunct2])
  with one have none: "getSubdomains ?local = []"
    by (rule rev_mp)
  from getSubdomains_variants [of ?page]
  have "length (split_dot (hostname ?page)) > 1 \<longrightarrow>
        set (suffix_forms (split_dot (hostname ?page)) (length (split_dot (hostname ?page)) - 2))
          \<subseteq> set (getSubdomains ?page)"
    by (rule conjunct2 [THEN conjunct2, THEN conjunct1])
  with four have "set (suffix_forms (split_dot (hostname ?page))
                         (length (split_dot (hostname ?page)) - 2))
                  \<subseteq> set (getSubdomains ?page)"
    by (rule rev_mp)
  moreover have "suffix_forms (split_dot (hostname ?page)) (length (split_dot (hostname ?page)) - 2)
                 = [''example.com'', ''.example.com'']"
    by (simp add: split_example suffix_forms_def)
  ultimately have main: "set [''example.com'', ''.example.com''] \<subseteq> set (getSubdomains ?page)"
    by (simp only:)
  from one four have "length (split_dot ''localhost'') = 1"
    and "length (split_dot ''a.b.example.com'') > 1"
    by simp_all
  with none main show ?thesis
    by (intro conjI)
qed

text \<open>
  C1 as stated fails: for \<open>a.b\<close> the suffix at the last label position is \<open>b\<close>, which the
  stated set contains and \<open>getSubdomains\<close> does not return.
\<close>

theorem getSubdomains_last_label_counterexample:
  "set (getSubdomains \<lparr>hostname = ''a.b'', origin = ''https://a.b''\<rparr>)
     \<noteq> deriveDomainVariants_spec ''a.b''"
proof -
  have code: "getSubdomains \<lparr>hostname = ''a.b'', origin = ''https://a.b''\<rparr> = [''a.b'', ''.a.b'']"
    by code_simp
  have spec: "''b'' \<in> deriveDomainVariants_spec ''a.b''"
    by code_simp
  from code have notin: "''b'' \<notin> set (getSubdomains \<lparr>hostname = ''a.b'', origin = ''https://a.b''\<rparr>)"
    by simp
  show ?thesis
  proof
    assume "set (getSubdomains \<lparr>hostname = ''a.b'', origin = ''https://a.b''\<rparr>)
              = deriveDomainVariants_spec ''a.b''"
    with spec have "''b'' \<in> set (getSubdomains \<lparr>hostname = ''a.b'', origin = ''https://a.b''\<rparr>)"
      by (simp only:)
    with notin show False by (rule notE)
  qed
qed

text \<open>
  C2. \<open>mergeAndDedupeCookies existing incoming\<close> lists the values of the mapping the
  specification describes (the concatenation folded from the left, keyed by
  \<open>name + "_" + domain\<close>, later records overwriting earlier ones): read as a keyed list it is
  that mapping, every key occurs once, its members are the mapping's values, and the keys
  stand in the order of their first occurrence in the concatenation. Merging
  \<open>[{name:"a", domain:"d"}]\<close> with \<open>[{name:"a", domain:"d", value:"new"}]\<close> gives the one record
  with value \<open>new\<close>.
\<close>

theorem mergeAndDedupeCookies_refines_spec:
  "map_of (keyed (mergeAndDedupeCookies existing incoming)) = mergeAndDedupe_spec existing incoming
   \<and> distinct (map cookieKey (mergeAndDedupeCookies existing incoming))
   \<and> set (mergeAndDedupeCookies existing incoming) = ran (mergeAndDedupe_spec existing incoming)
   \<and> map cookieKey (mergeAndDedupeCookies existing incoming)
       = first_occurrences (map cookieKey (existing @ incoming))
   \<and> mergeAndDedupeCookies
         [[(''name'', JStr ''a''), (''domain'', JStr ''d'')]]
         [[(''name'', JStr ''a''), (''domain'', JStr ''d''), (''value'', JStr ''new'')]]
       = [[(''name'', JStr ''a''), (''domain'', JStr ''d''), (''value'', JStr ''new'')]]"
proof -
  let ?r = "mergeAndDedupeCookies existing incoming"
  have m: "map_of (keyed ?r) = mergeAndDedupe_spec existing incoming"
    by (rule merge_map_of)
  have d: "distinct (map cookieKey ?r)"
    by (rule merge_distinct_keys)
  then have "distinct (map fst (keyed ?r))"
    by (simp only: keys_keyed)
  then have "ran (map_of (keyed ?r)) = snd ` set (keyed ?r)"
    by (rule ran_distinct)
  also have "\<dots> = set (map snd (keyed ?r))" by simp
  also have "\<dots> = set ?r" by (simp only: values_keyed)
  finally have r: "set ?r = ran (mergeAndDedupe_spec existing incoming)"
    by (simp only: m)
  have k: "map cookieKey ?r = first_occurrences (map cookieKey (existing @ incoming))"
    by (rule merge_keys)
  have e: "mergeAndDedupeCookies
         [[(''name'', JStr ''a''), (''domain'', JStr ''d'')]]
         [[(''name'', JStr ''a''), (''domain'', JStr ''d''), (''value'', JStr ''new'')]]
       = [[(''name'', JStr ''a''), (''domain'', JStr ''d''), (''value'', JStr ''new'')]]"
    by (simp add: mergeAndDedupeCookies_def map_values_def cookieKey_def obj_get_def Let_def)
  from m d r k e show ?thesis by blast
qed

text \<open>
  C3. Every replace-all request a handler sends carries a Buffer without two records of
  the same identity key \<open>name + "_" + domain\<close>, and after a handler has run the Buffer is
  either what it was or has no two records of the same identity key. This covers the merge
  write-back of the get-cookies handlers and the clear-to-empty of the export handlers, in
  both popup scripts. So the Buffer has no two records of the same identity key in any
  state the system reaches from the empty Buffer.
\<close>

theorem buffer_dedup_invariant:
  "(h \<in> set handlers \<longrightarrow>
      list_all (\<lambda>m. deduped (msg_value m)) (writes (new_messages w (h e w)))
      \<and> (cookiesHeap (h e w) = cookiesHeap w \<or> deduped (cookiesHeap (h e w))))
   \<and> (reachable w \<longrightarrow> deduped (cookiesHeap w))"
proof -
  have "list_all (\<lambda>m. deduped (msg_value m)) (writes (new_messages w (h e w)))
      \<and> (cookiesHeap (h e w) = cookiesHeap w \<or> deduped (cookiesHeap (h e w)))"
    if "h \<in> set handlers"
  proof -
    from that consider "h = handleGetCookies" | "h = handleCopyToClipboard"
      | "h = popup_handleGetCookies" | "h = popup_handleCopyToClipboard"
      by (auto simp: handlers_def)
    then show ?thesis
    proof cases
      case 1
      then show ?thesis by (simp only: handleGetCookies_writes)
    next
      case 2
      then show ?thesis by (simp only: handleCopyToClipboard_writes)
    next
      case 3
      then show ?thesis by (simp only: popup_handleGetCookies_writes)
    next
      case 4
      then show ?thesis by (simp only: popup_handleCopyToClipboard_writes)
    qed
  qed
  moreover have "deduped (cookiesHeap w)" if "reachable w"
    using that by (rule reachable_buffer_deduped)
  ultimately show ?thesis by blast
qed

text \<open>
  On the example page the first get-cookies action, started in the initial state, writes
  the one collected record.
\<close>

theorem buffer_dedup_invariant_witness:
  "handleGetCookies \<in> set handlers
   \<and> reachable initial_world
   \<and> deduped (cookiesHeap initial_world)
   \<and> writes (new_messages initial_world (handleGetCookies example_env initial_world))
       = [setCookiesHeap_message [example_record]]
   \<and> cookiesHeap (handleGetCookies example_env initial_world) \<noteq> cookiesHeap initial_world
   \<and> deduped (cookiesHeap (handleGetCookies example_env initial_world))"
  using buffer_dedup_invariant [of handleGetCookies initial_world example_env]
    reachable_initial_world
  by (simp add: handlers_def collects_example new_messages_def example_facts)

text \<open>
  C4, as the code has it. For every export started on a non-empty Buffer that the handler
  has read: when the clipboard write succeeds, the handler sends a replace-all request with
  the empty sequence, and the Buffer is empty afterwards exactly when that request reaches
  the Holder (when the transport fails on it, the Buffer keeps its content and the error
  display shows the error); when the clipboard write fails, no replace-all request is sent
  and the Buffer is unchanged.
\<close>

theorem export_clears_buffer:
  assumes "cookiesHeap w = Some heap" and "heap \<noteq> []"
    and "lastError e getCookiesHeap_message = None"
  shows "cookiesHeap (handleCopyToClipboard e w)
           = (if clipboard e = None \<and> lastError e (setCookiesHeap_message []) = None
              then Some [] else Some heap)
         \<and> writes (new_messages w (handleCopyToClipboard e w))
           = (if clipboard e = None then [setCookiesHeap_message []] else [])
         \<and> errorHTML (handleCopyToClipboard e w)
           = (case clipboard e of
                Some err \<Rightarrow> copy_error err
              | None \<Rightarrow>
                  (case lastError e (setCookiesHeap_message []) of
                     Some err \<Rightarrow> copy_error err
                   | None \<Rightarrow> []))
         \<and> cookiesHeap (popup_handleCopyToClipboard e w)
           = (if clipboard e = None \<and> lastError e (setCookiesHeap_message []) = None
              then Some [] else Some heap)
         \<and> writes (new_messages w (popup_handleCopyToClipboard e w))
           = (if clipboard e = None then [setCookiesHeap_message []] else [])
         \<and> errorHTML (popup_handleCopyToClipboard e w)
           = (case clipboard e of
                Some err \<Rightarrow> copy_error err
              | None \<Rightarrow>
                  (case lastError e (setCookiesHeap_message []) of
                     Some err \<Rightarrow> copy_error err
                   | None \<Rightarrow> []))"
proof -
  have a: "cookiesHeap (handleCopyToClipboard e w)
           = (if clipboard e = None \<and> lastError e (setCookiesHeap_message []) = None
              then Some [] else Some heap)
         \<and> writes (new_messages w (handleCopyToClipboard e w))
           = (if clipboard e = None then [setCookiesHeap_message []] else [])"
    using assms
    by (auto simp: handleCopyToClipboard_def handleCopyToClipboard_try_def service_eqs ui_defs
          new_messages_def split: option.splits)
  have ae: "errorHTML (handleCopyToClipboard e w)
           = (case clipboard e of
                Some err \<Rightarrow> copy_error err
              | None \<Rightarrow>
                  (case lastError e (setCookiesHeap_message []) of
                     Some err \<Rightarrow> copy_error err
                   | None \<Rightarrow> []))"
    using assms
    by (auto simp: handleCopyToClipboard_def handleCopyToClipboard_try_def service_eqs ui_defs
          split: option.splits)
  have b: "cookiesHeap (popup_handleCopyToClipboard e w)
           = (if clipboard e = None \<and> lastError e (setCookiesHeap_message []) = None
              then Some [] else Some heap)
         \<and> writes (new_messages w (popup_handleCopyToClipboard e w))
           = (if clipboard e = None then [setCookiesHeap_message []] else [])"
    using assms
    by (auto simp: popup_handleCopyToClipboard_def popup_handleCopyToClipboard_try_def service_eqs
          ui_defs new_messages_def split: option.splits)
  have be: "errorHTML (popup_handleCopyToClipboard e w)
           = (case clipboard e of
                Some err \<Rightarrow> copy_error err
              | None \<Rightarrow>
                  (case lastError e (setCookiesHeap_message []) of
                     Some err \<Rightarrow> copy_error err
                   | None \<Rightarrow> []))"
    using assms
    by (auto simp: popup_handleCopyToClipboard_def popup_handleCopyToClipboard_try_def service_eqs
          ui_defs split: option.splits)
  from a ae b be show ?thesis by blast
qed

text \<open>
  With all collaborators succeeding, the export of a Buffer of one record empties it.
\<close>

theorem export_clears_buffer_witness:
  "cookiesHeap one_cookie_world = Some [example_record] \<and> [example_record] \<noteq> []
   \<and> lastError example_env getCookiesHeap_message = None
   \<and> clipboard example_env = None
   \<and> lastError example_env (setCookiesHeap_message []) = None
   \<and> cookiesHeap (handleCopyToClipboard example_env one_cookie_world) = Some []
   \<and> cookiesHeap (popup_handleCopyToClipboard example_env one_cookie_world) = Some []"
  using export_clears_buffer [of one_cookie_world "[example_record]" example_env]
  by (simp add: export_examples example_facts)

text \<open>
  C4 as stated fails: the clipboard write succeeds, the transport fails on the replace-all
  request, and the Buffer still holds its record.
\<close>

theorem export_transport_failure_counterexample:
  "cookiesHeap one_cookie_world = Some [example_record]
   \<and> lastError transport_down_env getCookiesHeap_message = None
   \<and> clipboard transport_down_env = None
   \<and> cookiesHeap (handleCopyToClipboard transport_down_env one_cookie_world) \<noteq> Some []"
  by (simp add: export_examples example_facts)

text \<open>
  C5. For every cookie object and page URL, \<open>cleanCookie\<close> returns a record in which the
  fields \<open>storeId\<close>, \<open>hostOnly\<close>, \<open>expirationDate\<close> and \<open>session\<close> are absent, the field \<open>url\<close>
  is the origin of the page, and every other field is as in the cookie (present with the
  same value, or absent). \<open>{name:"x", domain:"d", storeId:"0", hostOnly:true, value:"v"}\<close> with
  origin \<open>https://example.com\<close> gives \<open>{name:"x", domain:"d", value:"v", url:"https://example.com"}\<close>.
\<close>

theorem cleanCookie_fields:
  "map_of (cleanCookie cookie u) f =
     (if f = ''url'' then Some (JStr (origin u))
      else if f \<in> {''storeId'', ''hostOnly'', ''expirationDate'', ''session''} then None
      else map_of cookie f)
   \<and> cleanCookie
         [(''name'', JStr ''x''), (''domain'', JStr ''d''), (''storeId'', JStr ''0''),
          (''hostOnly'', JBool True), (''value'', JStr ''v'')]
         \<lparr>hostname = ''example.com'', origin = ''https://example.com''\<rparr>
       = [(''name'', JStr ''x''), (''domain'', JStr ''d''), (''value'', JStr ''v''),
          (''url'', JStr ''https://example.com'')]"
proof -
  let ?dropped = "set [''storeId'', ''hostOnly'', ''expirationDate'', ''session'']"
  let ?rest = "filter (\<lambda>(name, v). name \<notin> ?dropped) cookie"
  have upd: "map_of (cleanCookie cookie u) = (map_of ?rest)(''url'' \<mapsto> JStr (origin u))"
    by (simp only: cleanCookie_def Let_def map_of_obj_set)
  have rest: "map_of ?rest f = (if f \<in> ?dropped then None else map_of cookie f)"
    by (rule map_of_filter_names)
  have "map_of (cleanCookie cookie u) f =
     (if f = ''url'' then Some (JStr (origin u))
      else if f \<in> {''storeId'', ''hostOnly'', ''expirationDate'', ''session''} then None
      else map_of cookie f)"
  proof (cases "f = ''url''")
    case True
    then show ?thesis by (simp only: upd) simp
  next
    case False
    then have "map_of (cleanCookie cookie u) f = map_of ?rest f"
      by (simp only: upd fun_upd_apply) simp
    also note rest
    finally show ?thesis using False by simp
  qed
  moreover have "cleanCookie
         [(''name'', JStr ''x''), (''domain'', JStr ''d''), (''storeId'', JStr ''0''),
          (''hostOnly'', JBool True), (''value'', JStr ''v'')]
         \<lparr>hostname = ''example.com'', origin = ''https://example.com''\<rparr>
       = [(''name'', JStr ''x''), (''domain'', JStr ''d''), (''value'', JStr ''v''),
          (''url'', JStr ''https://example.com'')]"
    by (simp add: cleanCookie_def Let_def)
  ultimately show ?thesis by blast
qed

text \<open>
  C6. For every get-cookies action in which the merged sequence is not longer than the
  Buffer that was read, no replace-all request is sent and the Buffer is unchanged. For
  \<open>handleGetCookies\<close> of \<open>popup.js\<close>, which compares the two lengths for equality, this
  holds when the Buffer has no two records with the same identity key, as it has in every
  state the system reaches.
\<close>

theorem no_redundant_write:
  assumes "activeTab e = Inr u" and "getAllCookies e u = Inr collected"
    and "cookiesHeap w = Some heap"
    and "length (mergeAndDedupeCookies heap collected) \<le> length heap"
  shows "cookiesHeap (handleGetCookies e w) = cookiesHeap w
         \<and> writes (new_messages w (handleGetCookies e w)) = []
         \<and> (distinct (map cookieKey heap) \<or> reachable w \<longrightarrow>
              cookiesHeap (popup_handleGetCookies e w) = cookiesHeap w
              \<and> writes (new_messages w (popup_handleGetCookies e w)) = [])"
proof -
  have a: "cookiesHeap (handleGetCookies e w) = cookiesHeap w
         \<and> writes (new_messages w (handleGetCookies e w)) = []"
    using assms
    by (auto simp: handleGetCookies_def handleGetCookies_try_def service_eqs ui_defs Let_def
          new_messages_def split: sum.splits option.splits)
  have b: "cookiesHeap (popup_handleGetCookies e w) = cookiesHeap w
              \<and> writes (new_messages w (popup_handleGetCookies e w)) = []"
    if "distinct (map cookieKey heap) \<or> reachable w"
  proof -
    from that assms(3) reachable_buffer_deduped [of w] have "distinct (map cookieKey heap)"
      by (auto simp: deduped_def)
    then have "length heap \<le> length (mergeAndDedupeCookies heap collected)"
      by (rule merge_not_shorter)
    with assms(4) have "length (mergeAndDedupeCookies heap collected) = length heap"
      by simp
    with assms(1-3) show ?thesis
      by (auto simp: popup_handleGetCookies_def popup_handleGetCookies_try_def service_eqs ui_defs
            Let_def new_messages_def split: sum.splits option.splits)
  qed
  from a b show ?thesis by blast
qed

text \<open>
  Collecting again on the example page, with its one cookie already in the Buffer.
\<close>

theorem no_redundant_write_witness:
  "activeTab example_env = Inr example_url
   \<and> getAllCookies example_env example_url = Inr [example_record]
   \<and> cookiesHeap one_cookie_world = Some [example_record]
   \<and> length (mergeAndDedupeCookies [example_record] [example_record]) \<le> length [example_record]
   \<and> distinct (map cookieKey [example_record])
   \<and> cookiesHeap (handleGetCookies example_env one_cookie_world) = Some [example_record]
   \<and> writes (new_messages one_cookie_world (handleGetCookies example_env one_cookie_world)) = []
   \<and> cookiesHeap (popup_handleGetCookies example_env one_cookie_world) = Some [example_record]
   \<and> writes (new_messages one_cookie_world (popup_handleGetCookies example_env one_cookie_world)) = []"
  using no_redundant_write
    [of example_env example_url "[example_record]" one_cookie_world "[example_record]"]
  by (simp add: collects_nothing_new example_facts new_messages_def)

text \<open>
  C7. The listener answers a \<open>getCookiesHeap\<close> request with \<open>{value: cookiesHeap}\<close> and
  leaves the Buffer unchanged; on a \<open>setCookiesHeap\<close> request it replaces the Buffer with the
  request's value and answers \<open>{status: "success"}\<close>; a request of any other type gets no
  response, and the Buffer is unchanged.
\<close>

theorem onMessage_protocol:
  "onMessage buffer \<lparr>msg_type = ''getCookiesHeap'', msg_value = v\<rparr>
     = (buffer, Some \<lparr>resp_value = buffer, resp_status = JUndefined\<rparr>)
   \<and> onMessage buffer \<lparr>msg_type = ''setCookiesHeap'', msg_value = v\<rparr>
     = (v, Some \<lparr>resp_value = None, resp_status = JStr ''success''\<rparr>)
   \<and> (t \<noteq> ''getCookiesHeap'' \<and> t \<noteq> ''setCookiesHeap''
        \<longrightarrow> onMessage buffer \<lparr>msg_type = t, msg_value = v\<rparr> = (buffer, None))"
  by (simp add: onMessage_def)

text \<open>
  A request of type \<open>clearCookiesHeap\<close> gets no response.
\<close>

theorem onMessage_protocol_witness:
  "''clearCookiesHeap'' \<noteq> ''getCookiesHeap'' \<and> ''clearCookiesHeap'' \<noteq> ''setCookiesHeap''
   \<and> onMessage (Some [example_record]) \<lparr>msg_type = ''clearCookiesHeap'', msg_value = None\<rparr>
       = (Some [example_record], None)"
  using onMessage_protocol [of "Some [example_record]" None "''clearCookiesHeap''"]
  by simp

text \<open>
  C8, as the code has it. After a handler has run, the error display holds: the text of
  the caught error, when the \<open>try\<close> block threw; nothing, when a get-cookies action has sent
  its write-back or an export has completed; the empty-Buffer text, when an export found the
  Buffer empty; and what it held before, when a get-cookies action completed with nothing
  new: that action does not clear the display. The error texts are not empty, so the display
  is written non-empty only on a failure.
\<close>

theorem error_banner:
  "errorHTML (handleGetCookies e w)
     = (case snd (handleGetCookies_try e w) of
          Inl err \<Rightarrow> getCookies_error err
        | Inr done \<Rightarrow>
            if writes (new_messages w (handleGetCookies e w)) = [] then errorHTML w else [])
   \<and> errorHTML (handleCopyToClipboard e w)
     = (case snd (handleCopyToClipboard_try e w) of
          Inl err \<Rightarrow> copy_error err
        | Inr done \<Rightarrow> if cookiesHeap w = Some [] then ERROR_EMPTY_HEAP else [])
   \<and> errorHTML (popup_handleGetCookies e w)
     = (case snd (popup_handleGetCookies_try e w) of
          Inl err \<Rightarrow> getCookies_error err
        | Inr done \<Rightarrow>
            if writes (new_messages w (popup_handleGetCookies e w)) = [] then errorHTML w else [])
   \<and> errorHTML (popup_handleCopyToClipboard e w)
     = (case snd (popup_handleCopyToClipboard_try e w) of
          Inl err \<Rightarrow> copy_error err
        | Inr done \<Rightarrow> if cookiesHeap w = Some [] then ERROR_EMPTY_HEAP else [])
   \<and> getCookies_error msg \<noteq> [] \<and> copy_error msg \<noteq> [] \<and> ERROR_EMPTY_HEAP \<noteq> []"
proof -
  have g: "errorHTML (handleGetCookies e w)
     = (case snd (handleGetCookies_try e w) of
          Inl err \<Rightarrow> getCookies_error err
        | Inr done \<Rightarrow>
            if writes (new_messages w (handleGetCookies e w)) = [] then errorHTML w else [])"
    by (auto simp: handleGetCookies_def handleGetCookies_try_def service_eqs ui_defs Let_def
          new_messages_def split: sum.splits option.splits)
  have c: "errorHTML (handleCopyToClipboard e w)
     = (case snd (handleCopyToClipboard_try e w) of
          Inl err \<Rightarrow> copy_error err
        | Inr done \<Rightarrow> if cookiesHeap w = Some [] then ERROR_EMPTY_HEAP else [])"
    by (auto simp: handleCopyToClipboard_def handleCopyToClipboard_try_def service_eqs ui_defs
          new_messages_def split: sum.splits option.splits)
  have pg: "errorHTML (popup_handleGetCookies e w)
     = (case snd (popup_handleGetCookies_try e w) of
          Inl err \<Rightarrow> getCookies_error err
        | Inr done \<Rightarrow>
            if writes (new_messages w (popup_handleGetCookies e w)) = [] then errorHTML w else [])"
    by (auto simp: popup_handleGetCookies_def popup_handleGetCookies_try_def service_eqs ui_defs
          Let_def new_messages_def split: sum.splits option.splits)
  have pc: "errorHTML (popup_handleCopyToClipboard e w)
     = (case snd (popup_handleCopyToClipboard_try e w) of
          Inl err \<Rightarrow> copy_error err
        | Inr done \<Rightarrow> if cookiesHeap w = Some [] then ERROR_EMPTY_HEAP else [])"
    by (auto simp: popup_handleCopyToClipboard_def popup_handleCopyToClipboard_try_def service_eqs
          ui_defs new_messages_def split: sum.splits option.splits)
  from g c pg pc error_texts_nonempty(1) [of msg] error_texts_nonempty(2) [of msg]
    error_texts_nonempty(3)
  show ?thesis by blast
qed

text \<open>
  A get-cookies action that writes new cookies clears the text an export on the empty
  Buffer has left.
\<close>

theorem error_banner_witness:
  "snd (handleGetCookies_try example_env (handleCopyToClipboard no_cookies_env initial_world))
     = Inr ()
   \<and> errorHTML (handleCopyToClipboard no_cookies_env initial_world) = ERROR_EMPTY_HEAP
   \<and> errorHTML (handleGetCookies example_env
                  (handleCopyToClipboard no_cookies_env initial_world)) = []"
  using error_banner [of example_env "handleCopyToClipboard no_cookies_env initial_world"]
  by (simp add: banner_examples)

text \<open>
  C8 as stated fails: an export on the empty Buffer shows the empty-Buffer text; a
  get-cookies action on a page without cookies then completes without throwing, and the
  error display is still not empty.
\<close>

theorem error_banner_not_cleared_counterexample:
  "snd (handleGetCookies_try no_cookies_env (handleCopyToClipboard no_cookies_env initial_world))
     = Inr ()
   \<and> errorHTML (handleGetCookies no_cookies_env
                  (handleCopyToClipboard no_cookies_env initial_world)) \<noteq> []"
  by (simp add: banner_examples error_texts_nonempty)

text \<open>
  C9. For every record list \<open>X\<close>, \<open>mergeAndDedupeCookies X []\<close> has the identity keys of \<open>X\<close>,
  each with the last record of \<open>X\<close> under that key, and all its records are records of \<open>X\<close>;
  when no two records of \<open>X\<close> share an identity key, it is \<open>X\<close> itself.
\<close>

theorem mergeAndDedupeCookies_right_identity:
  "set (map cookieKey (mergeAndDedupeCookies X [])) = set (map cookieKey X)
   \<and> set (mergeAndDedupeCookies X []) \<subseteq> set X
   \<and> map_of (keyed (mergeAndDedupeCookies X [])) = map_of (rev (keyed X))
   \<and> (distinct (map cookieKey X) \<longrightarrow> mergeAndDedupeCookies X [] = X)"
proof -
  have "set (map cookieKey (mergeAndDedupeCookies X [])) = set (map cookieKey X)"
    by (simp only: merge_keys first_occurrences_set) simp
  moreover from merge_values_subset [of X "[]"]
  have "set (mergeAndDedupeCookies X []) \<subseteq> set X" by simp
  moreover have "map_of (keyed (mergeAndDedupeCookies X [])) = map_of (rev (keyed X))"
    by (simp add: merge_map_of mergeAndDedupe_spec_def fold_update_last_wins)
  moreover have "distinct (map cookieKey X) \<longrightarrow> mergeAndDedupeCookies X [] = X"
    using merge_distinct_identity [of X "[]"] by simp
  ultimately show ?thesis by blast
qed

text \<open>
  Two records with different identity keys.
\<close>

theorem mergeAndDedupeCookies_right_identity_witness:
  "distinct (map cookieKey
       [[(''name'', JStr ''a''), (''domain'', JStr ''d'')],
        [(''name'', JStr ''b''), (''domain'', JStr ''d''), (''value'', JStr ''v'')]])
   \<and> mergeAndDedupeCookies
       [[(''name'', JStr ''a''), (''domain'', JStr ''d'')],
        [(''name'', JStr ''b''), (''domain'', JStr ''d''), (''value'', JStr ''v'')]] []
     = [[(''name'', JStr ''a''), (''domain'', JStr ''d'')],
        [(''name'', JStr ''b''), (''domain'', JStr ''d''), (''value'', JStr ''v'')]]"
  using mergeAndDedupeCookies_right_identity
    [of "[[(''name'', JStr ''a''), (''domain'', JStr ''d'')],
          [(''name'', JStr ''b''), (''domain'', JStr ''d''), (''value'', JStr ''v'')]]"]
  by (simp add: cookieKey_def obj_get_def)

text \<open>
  C10. The test \<open>!response?.status === "success"\<close> compares a boolean with a string: it
  is false for every response, also for no response and for a status other than
  \<open>success\<close>. So \<open>setCookiesHeap\<close> never throws its own error and treats every delivered
  response as success, in both popup scripts; the call fails only when the transport does.
\<close>

theorem setCookiesHeap_failure_unreachable:
  "\<not> setCookiesHeap_guard response
   \<and> setCookiesHeap_result response = Inr True
   \<and> popup_setCookiesHeap_result response = Inr ''Global variable updated successfully''
   \<and> setCookiesHeap_result None = Inr True
   \<and> setCookiesHeap_result (Some \<lparr>resp_value = None, resp_status = JStr ''failure''\<rparr>) = Inr True
   \<and> snd (setCookiesHeap e v w)
       = (case lastError e (setCookiesHeap_message v) of Some err \<Rightarrow> Inl err | None \<Rightarrow> Inr True)
   \<and> snd (popup_setCookiesHeap e v w)
       = (case lastError e (setCookiesHeap_message v) of
            Some err \<Rightarrow> Inl err
          | None \<Rightarrow> Inr ''Global variable updated successfully'')"
  by (simp add: setCookiesHeap_guard_never setCookiesHeap_result_def popup_setCookiesHeap_result_def
        setCookiesHeap_eq popup_setCookiesHeap_eq split: option.splits)

end
